theory Spec2Isabelle
  imports Main "HOL-Library.Word"
begin

unbundle bit_operations_syntax

section \<open>Data model of \<^verbatim>\<open>ThumborUrlBuilder\<close>\<close>

text \<open>
  The class \<^verbatim>\<open>ThumborUrlBuilder\<close> of \<^verbatim>\<open>src/thumbor-url-builder.ts\<close> is a mutable
  object with twelve private fields and two constructor parameters. It is modelled as a
  record; each setter is a function from the record to the updated record (they all
  \<^verbatim>\<open>return this\<close>).

  JavaScript strings are modelled as \<open>string\<close>: lists of code units below 256.
  The TypeScript type \<^verbatim>\<open>number\<close> is modelled as \<open>int\<close>: the integers the
  documentation of \<^verbatim>\<open>resize\<close> and \<^verbatim>\<open>crop\<close> speaks of. A \<^verbatim>\<open>number\<close> is a double:
  fractions, \<^verbatim>\<open>NaN\<close> and the infinities are not values of the model.
\<close>

text \<open>
  Modelled from the spec: the types \<^verbatim>\<open>HAlign\<close>, \<^verbatim>\<open>VAlign\<close>, \<^verbatim>\<open>CropModel\<close> and
  \<^verbatim>\<open>Format\<close> are imported from \<^verbatim>\<open>./models\<close>, which is not among the sources. The
  alignments are the string tokens the source's comments and the spec list; the crop
  window is the record of four numbers that \<^verbatim>\<open>crop\<close> builds; a format is an opaque
  string token.
\<close>

datatype HAlign = HAlign_left | HAlign_center | HAlign_right

datatype VAlign = VAlign_top | VAlign_middle | VAlign_bottom

fun HAlign_token :: "HAlign \<Rightarrow> string" where
  "HAlign_token HAlign_left = ''left''"
| "HAlign_token HAlign_center = ''center''"
| "HAlign_token HAlign_right = ''right''"

fun VAlign_token :: "VAlign \<Rightarrow> string" where
  "VAlign_token VAlign_top = ''top''"
| "VAlign_token VAlign_middle = ''middle''"
| "VAlign_token VAlign_bottom = ''bottom''"

type_synonym Format = string

record CropModel =
  crop_left :: int
  crop_top :: int
  crop_right :: int
  crop_bottom :: int

record ThumborUrlBuilder =
  imagePath :: string
  width :: int
  height :: int
  smart :: bool
  fitInFlag :: bool
  flipHorizontally :: bool
  flipVertically :: bool
  hAlignValue :: "HAlign option"
  vAlignValue :: "VAlign option"
  cropValues :: "CropModel option"
  meta :: bool
  filtersCalls :: "string list"
  securityKey :: "string option"
  serverUrl :: string

text \<open>
  The constructor with the field initialisers of lines 6 to 19. The key is an option:
  \<open>None\<close> stands for a \<^verbatim>\<open>null\<close> or \<^verbatim>\<open>undefined\<close> argument, the two values that
  \<^verbatim>\<open>this.securityKey == null\<close> accepts.
\<close>

definition new_ThumborUrlBuilder :: "string option \<Rightarrow> string \<Rightarrow> ThumborUrlBuilder" where
  "new_ThumborUrlBuilder key url =
     \<lparr> imagePath = [], width = 0, height = 0, smart = False, fitInFlag = False,
       flipHorizontally = False, flipVertically = False,
       hAlignValue = None, vAlignValue = None, cropValues = None,
       meta = False, filtersCalls = [],
       securityKey = key, serverUrl = url \<rparr>"

datatype error = Error string

section \<open>Setters\<close>

text \<open>
  \<^verbatim>\<open>imagePath.charAt(0) === '/' ? imagePath.substring(1, imagePath.length) : imagePath\<close>
\<close>

definition setImagePath :: "string \<Rightarrow> ThumborUrlBuilder \<Rightarrow> ThumborUrlBuilder" where
  "setImagePath p this =
     this\<lparr> imagePath := (if take 1 p = ''/'' then drop 1 p else p) \<rparr>"

definition resize :: "int \<Rightarrow> int \<Rightarrow> ThumborUrlBuilder \<Rightarrow> ThumborUrlBuilder" where
  "resize w h this = this\<lparr> width := w, height := h \<rparr>"

definition smartCrop :: "bool \<Rightarrow> ThumborUrlBuilder \<Rightarrow> ThumborUrlBuilder" where
  "smartCrop s this = this\<lparr> smart := s \<rparr>"

definition fitIn :: "int \<Rightarrow> int \<Rightarrow> ThumborUrlBuilder \<Rightarrow> ThumborUrlBuilder" where
  "fitIn w h this = this\<lparr> width := w, height := h, fitInFlag := True \<rparr>"

definition withFlipHorizontally :: "ThumborUrlBuilder \<Rightarrow> ThumborUrlBuilder" where
  "withFlipHorizontally this = this\<lparr> flipHorizontally := True \<rparr>"

definition withFlipVertically :: "ThumborUrlBuilder \<Rightarrow> ThumborUrlBuilder" where
  "withFlipVertically this = this\<lparr> flipVertically := True \<rparr>"

definition hAlign :: "HAlign \<Rightarrow> ThumborUrlBuilder \<Rightarrow> ThumborUrlBuilder" where
  "hAlign a this = this\<lparr> hAlignValue := Some a \<rparr>"

definition vAlign :: "VAlign \<Rightarrow> ThumborUrlBuilder \<Rightarrow> ThumborUrlBuilder" where
  "vAlign a this = this\<lparr> vAlignValue := Some a \<rparr>"

definition metaDataOnly :: "ThumborUrlBuilder \<Rightarrow> ThumborUrlBuilder" where
  "metaDataOnly this = this\<lparr> meta := True \<rparr>"

text \<open>\<^verbatim>\<open>this.filtersCalls.push(filterCall)\<close>; the name \<open>filter\<close> is taken by the list library.\<close>

definition filter_method :: "string \<Rightarrow> ThumborUrlBuilder \<Rightarrow> ThumborUrlBuilder" where
  "filter_method filterCall this = this\<lparr> filtersCalls := filtersCalls this @ [filterCall] \<rparr>"

definition format :: "Format \<Rightarrow> ThumborUrlBuilder \<Rightarrow> ThumborUrlBuilder" where
  "format fmt this = filter_method (''format('' @ fmt @ '')'') this"

definition crop :: "int \<Rightarrow> int \<Rightarrow> int \<Rightarrow> int \<Rightarrow> ThumborUrlBuilder \<Rightarrow> ThumborUrlBuilder" where
  "crop l t r b this =
     (if l > 0 \<and> t > 0 \<and> r > 0 \<and> b > 0
      then this\<lparr> cropValues :=
             Some \<lparr> crop_left = l, crop_top = t, crop_right = r, crop_bottom = b \<rparr> \<rparr>
      else this)"

section \<open>Rendering the operation path\<close>

text \<open>
  Decimal rendering of a number, as string concatenation and template literals do for
  an integer of magnitude below \<open>10\<^sup>2\<^sup>1\<close>. From there on JavaScript prints a number in
  exponent form (\<^verbatim>\<open>1e+21\<close>) and \<open>number_to_string\<close> still prints all digits: the
  model does not follow the source on such numbers.
\<close>

fun nat_to_string :: "nat \<Rightarrow> string" where
  "nat_to_string n =
     (if n < 10 then [''0123456789'' ! n]
      else nat_to_string (n div 10) @ [''0123456789'' ! (n mod 10)])"

declare nat_to_string.simps [simp del]

definition number_to_string :: "int \<Rightarrow> string" where
  "number_to_string i =
     (if i < 0 then ''-'' @ nat_to_string (nat (- i)) else nat_to_string (nat i))"

text \<open>\<^verbatim>\<open>Array.prototype.join\<close>.\<close>

fun join :: "string \<Rightarrow> string list \<Rightarrow> string" where
  "join sep [] = []"
| "join sep [x] = x"
| "join sep (x # y # ys) = x @ sep @ join sep (y # ys)"

text \<open>
  \<^verbatim>\<open>urlParts\<close> (lines 208 to 268): the guard on the image path, then eight conditional
  \<^verbatim>\<open>parts.push\<close>, in the order of the source. A name bound again in the \<open>let\<close> is the
  array after the push.
\<close>

definition urlParts :: "ThumborUrlBuilder \<Rightarrow> error + string list" where
  "urlParts this =
     (if imagePath this = [] then Inl (Error ''The image url can't be null or empty.'')
      else
        let parts = [];
            parts = (if meta this then parts @ [''meta''] else parts);
            parts = (case cropValues this of
                       None \<Rightarrow> parts
                     | Some c \<Rightarrow>
                         parts @ [number_to_string (crop_left c) @ ''x'' @
                                  number_to_string (crop_top c) @ '':'' @
                                  number_to_string (crop_right c) @ ''x'' @
                                  number_to_string (crop_bottom c)]);
            parts = (if fitInFlag this then parts @ [''fit-in''] else parts);
            parts = (if width this \<noteq> 0 \<or> height this \<noteq> 0 \<or>
                        flipHorizontally this \<or> flipVertically this
                     then
                       let sizeString = [];
                           sizeString = (if flipHorizontally this then sizeString @ ''-''
                                         else sizeString);
                           sizeString = sizeString @ number_to_string (width this);
                           sizeString = sizeString @ ''x'';
                           sizeString = (if flipVertically this then sizeString @ ''-''
                                         else sizeString);
                           sizeString = sizeString @ number_to_string (height this)
                       in parts @ [sizeString]
                     else parts);
            parts = (case hAlignValue this of
                       None \<Rightarrow> parts
                     | Some a \<Rightarrow> parts @ [HAlign_token a]);
            parts = (case vAlignValue this of
                       None \<Rightarrow> parts
                     | Some a \<Rightarrow> parts @ [VAlign_token a]);
            parts = (if smart this then parts @ [''smart''] else parts);
            parts = (if length (filtersCalls this) > 0
                     then parts @ [''filters:'' @ join '':'' (filtersCalls this)]
                     else parts)
        in Inr parts)"

definition getOperationPath :: "ThumborUrlBuilder \<Rightarrow> error + string" where
  "getOperationPath this =
     (case urlParts this of
        Inl e \<Rightarrow> Inl e
      | Inr parts \<Rightarrow> if 0 = length parts then Inr [] else Inr (join ''/'' parts @ ''/''))"

section \<open>Signing\<close>

text \<open>
  Modelled from the spec: \<^verbatim>\<open>crypto-js\<close> is an external library and not among the
  sources. \<^verbatim>\<open>crypto.HmacSHA1(message, key)\<close> is modelled as the spec names it, the
  keyed hash HMAC (RFC 2104) with the SHA-1 digest (FIPS 180-4), over the UTF-8 bytes
  of its two string arguments (the library parses strings as UTF-8);
  \<^verbatim>\<open>crypto.enc.Base64.stringify\<close> is standard Base64 with \<^verbatim>\<open>=\<close> padding (RFC 4648).
\<close>

type_synonym byte = "8 word"
type_synonym word32 = "32 word"

definition utf8_unit :: "char \<Rightarrow> byte list" where
  "utf8_unit c =
     (let n = (of_char c :: nat)
      in if n < 128 then [of_nat n]
         else [of_nat (192 + n div 64), of_nat (128 + n mod 64)])"

definition Utf8_parse :: "string \<Rightarrow> byte list" where
  "Utf8_parse s = concat (map utf8_unit s)"

definition be32 :: "byte \<Rightarrow> byte \<Rightarrow> byte \<Rightarrow> byte \<Rightarrow> word32" where
  "be32 a b c d =
     push_bit 24 (ucast a) OR push_bit 16 (ucast b) OR push_bit 8 (ucast c) OR ucast d"

fun be32_words :: "byte list \<Rightarrow> word32 list" where
  "be32_words (a # b # c # d # bs) = be32 a b c d # be32_words bs"
| "be32_words _ = []"

definition word32_bytes :: "word32 \<Rightarrow> byte list" where
  "word32_bytes w =
     [ucast (drop_bit 24 w), ucast (drop_bit 16 w), ucast (drop_bit 8 w), ucast w]"

text \<open>
  The padding of SHA-1: the byte \<open>0x80\<close>, zero bytes up to 56 modulo 64, and the
  length of the message in bits as a 64-bit big-endian number.
\<close>

definition sha1_pad :: "byte list \<Rightarrow> byte list" where
  "sha1_pad m =
     (let l = length m;
          nBits = (of_nat (8 * l) :: 64 word)
      in m @ [0x80] @ replicate ((119 - l mod 64) mod 64) 0 @
         [ucast (drop_bit 56 nBits), ucast (drop_bit 48 nBits),
          ucast (drop_bit 40 nBits), ucast (drop_bit 32 nBits),
          ucast (drop_bit 24 nBits), ucast (drop_bit 16 nBits),
          ucast (drop_bit 8 nBits), ucast nBits])"

definition sha1_f :: "nat \<Rightarrow> word32 \<Rightarrow> word32 \<Rightarrow> word32 \<Rightarrow> word32" where
  "sha1_f t b c d =
     (if t < 20 then (b AND c) OR (NOT b AND d)
      else if t < 40 then b XOR c XOR d
      else if t < 60 then (b AND c) OR (b AND d) OR (c AND d)
      else b XOR c XOR d)"

definition sha1_K :: "nat \<Rightarrow> word32" where
  "sha1_K t =
     (if t < 20 then 0x5a827999
      else if t < 40 then 0x6ed9eba1
      else if t < 60 then 0x8f1bbcdc
      else 0xca62c1d6)"

type_synonym sha1_state = "word32 \<times> word32 \<times> word32 \<times> word32 \<times> word32"

text \<open>
  The rounds of one block. The message schedule is kept as a window of sixteen words:
  its head is the word of round \<open>t\<close>, and the word of round \<open>t + 16\<close> is appended.
\<close>

fun sha1_rounds :: "nat \<Rightarrow> nat \<Rightarrow> word32 list \<Rightarrow> sha1_state \<Rightarrow> sha1_state" where
  "sha1_rounds 0 t w s = s"
| "sha1_rounds (Suc n) t w (a, b, c, d, e) =
     sha1_rounds n (Suc t)
       (tl w @ [word_rotl 1 (w ! 13 XOR w ! 8 XOR w ! 2 XOR w ! 0)])
       (word_rotl 5 a + sha1_f t b c d + e + sha1_K t + hd w, a, word_rotl 30 b, c, d)"

definition sha1_block :: "sha1_state \<Rightarrow> word32 list \<Rightarrow> sha1_state" where
  "sha1_block H w =
     (case H of (h0, h1, h2, h3, h4) \<Rightarrow>
        (case sha1_rounds 80 0 w H of (a, b, c, d, e) \<Rightarrow>
           (h0 + a, h1 + b, h2 + c, h3 + d, h4 + e)))"

fun sha1_blocks :: "nat \<Rightarrow> sha1_state \<Rightarrow> word32 list \<Rightarrow> sha1_state" where
  "sha1_blocks 0 H ws = H"
| "sha1_blocks (Suc n) H ws = sha1_blocks n (sha1_block H (take 16 ws)) (drop 16 ws)"

definition sha1_init :: sha1_state where
  "sha1_init = (0x67452301, 0xefcdab89, 0x98badcfe, 0x10325476, 0xc3d2e1f0)"

definition SHA1 :: "byte list \<Rightarrow> byte list" where
  "SHA1 m =
     (let ws = be32_words (sha1_pad m)
      in case sha1_blocks (length ws div 16) sha1_init ws of (a, b, c, d, e) \<Rightarrow>
           word32_bytes a @ word32_bytes b @ word32_bytes c @ word32_bytes d @
           word32_bytes e)"

definition HMAC_SHA1 :: "byte list \<Rightarrow> byte list \<Rightarrow> byte list" where
  "HMAC_SHA1 key m =
     (let k = (if length key > 64 then SHA1 key else key);
          k = k @ replicate (64 - length k) 0;
          oKey = map (\<lambda>x. x XOR 0x5c) k;
          iKey = map (\<lambda>x. x XOR 0x36) k
      in SHA1 (oKey @ SHA1 (iKey @ m)))"

definition HmacSHA1 :: "string \<Rightarrow> string \<Rightarrow> byte list" where
  "HmacSHA1 message key = HMAC_SHA1 (Utf8_parse key) (Utf8_parse message)"

definition base64_map :: string where
  "base64_map = ''ABCDEFGHIJKLMNOPQRSTUVWXYZabcdefghijklmnopqrstuvwxyz0123456789+/''"

text \<open>
  The character of index \<open>j\<close> of a group of three bytes:
  \<^verbatim>\<open>map.charAt((triplet >>> (6 * (3 - j))) & 0x3f)\<close>.
\<close>

definition base64_char :: "word32 \<Rightarrow> nat \<Rightarrow> char" where
  "base64_char triplet j = base64_map ! unat (drop_bit (6 * (3 - j)) triplet AND 0x3f)"

fun Base64_stringify :: "byte list \<Rightarrow> string" where
  "Base64_stringify [] = []"
| "Base64_stringify [b1] =
     (let triplet = push_bit 16 (ucast b1)
      in [base64_char triplet 0, base64_char triplet 1, CHR ''='', CHR ''=''])"
| "Base64_stringify [b1, b2] =
     (let triplet = push_bit 16 (ucast b1) OR push_bit 8 (ucast b2)
      in [base64_char triplet 0, base64_char triplet 1, base64_char triplet 2, CHR ''=''])"
| "Base64_stringify (b1 # b2 # b3 # bs) =
     (let triplet = push_bit 16 (ucast b1) OR push_bit 8 (ucast b2) OR ucast b3
      in [base64_char triplet 0, base64_char triplet 1, base64_char triplet 2,
          base64_char triplet 3])
     @ Base64_stringify bs"

text \<open>\<^verbatim>\<open>String.prototype.replace\<close> with a global pattern that matches one character.\<close>

definition replace_all :: "char \<Rightarrow> char \<Rightarrow> string \<Rightarrow> string" where
  "replace_all x y s = map (\<lambda>c. if c = x then y else c) s"

text \<open>\<^verbatim>\<open>getSecureString\<close> (lines 169 to 184).\<close>

definition getSecureString :: "ThumborUrlBuilder \<Rightarrow> string \<Rightarrow> string" where
  "getSecureString this operation =
     (case securityKey this of
        None \<Rightarrow> ''unsafe''
      | Some k \<Rightarrow>
          let key = HmacSHA1 (operation @ imagePath this) k;
              keyString = replace_all (CHR ''/'') (CHR ''_'')
                            (replace_all (CHR ''+'') (CHR ''-'') (Base64_stringify key))
          in keyString)"

section \<open>Building the URL\<close>

text \<open>\<^verbatim>\<open>buildUrl\<close> (lines 155 to 167); the exception of \<^verbatim>\<open>urlParts\<close> propagates.\<close>

definition buildUrl :: "ThumborUrlBuilder \<Rightarrow> error + string" where
  "buildUrl this =
     (case getOperationPath this of
        Inl e \<Rightarrow> Inl e
      | Inr operation \<Rightarrow>
          let secureString = getSecureString this operation
          in Inr (serverUrl this @ ''/'' @ secureString @ ''/'' @ operation @ imagePath this))"

section \<open>The build as steps on the object\<close>

text \<open>
  The four methods of the build once more, with the object threaded through them: a
  method takes the object and returns its value, or the error it raises, together with
  the object after the call. Inside \<^verbatim>\<open>urlParts\<close> the state is the object and the local
  array \<^verbatim>\<open>parts\<close>; every statement passes both on, and reads the fields from the
  object that the statements before it have left.
\<close>

type_synonym urlParts_state = "ThumborUrlBuilder \<times> string list"

text \<open>\<^verbatim>\<open>parts.push(x)\<close>: the local array grows, the object is passed on.\<close>

definition parts_push :: "string \<Rightarrow> urlParts_state \<Rightarrow> urlParts_state" where
  "parts_push x s = (fst s, snd s @ [x])"

definition urlParts_call ::
  "ThumborUrlBuilder \<Rightarrow> (error + string list) \<times> ThumborUrlBuilder" where
  "urlParts_call this =
     (if imagePath this = []
      then (Inl (Error ''The image url can't be null or empty.''), this)
      else
        let s = (this, []);
            s = (if meta (fst s) then parts_push ''meta'' s else s);
            s = (case cropValues (fst s) of
                   None \<Rightarrow> s
                 | Some c \<Rightarrow>
                     parts_push (number_to_string (crop_left c) @ ''x'' @
                                 number_to_string (crop_top c) @ '':'' @
                                 number_to_string (crop_right c) @ ''x'' @
                                 number_to_string (crop_bottom c)) s);
            s = (if fitInFlag (fst s) then parts_push ''fit-in'' s else s);
            s = (if width (fst s) \<noteq> 0 \<or> height (fst s) \<noteq> 0 \<or>
                    flipHorizontally (fst s) \<or> flipVertically (fst s)
                 then
                   let sizeString = [];
                       sizeString = (if flipHorizontally (fst s) then sizeString @ ''-''
                                     else sizeString);
                       sizeString = sizeString @ number_to_string (width (fst s));
                       sizeString = sizeString @ ''x'';
                       sizeString = (if flipVertically (fst s) then sizeString @ ''-''
                                     else sizeString);
                       sizeString = sizeString @ number_to_string (height (fst s))
                   in parts_push sizeString s
                 else s);
            s = (case hAlignValue (fst s) of
                   None \<Rightarrow> s
                 | Some a \<Rightarrow> parts_push (HAlign_token a) s);
            s = (case vAlignValue (fst s) of
                   None \<Rightarrow> s
                 | Some a \<Rightarrow> parts_push (VAlign_token a) s);
            s = (if smart (fst s) then parts_push ''smart'' s else s);
            s = (if length (filtersCalls (fst s)) > 0
                 then parts_push (''filters:'' @ join '':'' (filtersCalls (fst s))) s
                 else s)
        in (Inr (snd s), fst s))"

definition getOperationPath_call ::
  "ThumborUrlBuilder \<Rightarrow> (error + string) \<times> ThumborUrlBuilder" where
  "getOperationPath_call this =
     (case urlParts_call this of
        (Inl e, this) \<Rightarrow> (Inl e, this)
      | (Inr parts, this) \<Rightarrow>
          if 0 = length parts then (Inr [], this)
          else (Inr (join ''/'' parts @ ''/''), this))"

definition getSecureString_call ::
  "string \<Rightarrow> ThumborUrlBuilder \<Rightarrow> string \<times> ThumborUrlBuilder" where
  "getSecureString_call operation this =
     (case securityKey this of
        None \<Rightarrow> (''unsafe'', this)
      | Some k \<Rightarrow>
          let key = HmacSHA1 (operation @ imagePath this) k;
              keyString = replace_all (CHR ''/'') (CHR ''_'')
                            (replace_all (CHR ''+'') (CHR ''-'') (Base64_stringify key))
          in (keyString, this))"

definition buildUrl_call :: "ThumborUrlBuilder \<Rightarrow> (error + string) \<times> ThumborUrlBuilder" where
  "buildUrl_call this =
     (case getOperationPath_call this of
        (Inl e, this) \<Rightarrow> (Inl e, this)
      | (Inr operation, this) \<Rightarrow>
          (case getSecureString_call operation this of
             (secureString, this) \<Rightarrow>
               (Inr (serverUrl this @ ''/'' @ secureString @ ''/'' @ operation @
                     imagePath this), this)))"

section \<open>Sequences of setter calls\<close>

datatype call =
    SetImagePath string
  | Resize int int
  | SmartCrop bool
  | FitIn int int
  | WithFlipHorizontally
  | WithFlipVertically
  | HAlignCall HAlign
  | VAlignCall VAlign
  | MetaDataOnly
  | FilterCall string
  | FormatCall Format
  | Crop int int int int

fun apply_call :: "call \<Rightarrow> ThumborUrlBuilder \<Rightarrow> ThumborUrlBuilder" where
  "apply_call (SetImagePath p) this = setImagePath p this"
| "apply_call (Resize w h) this = resize w h this"
| "apply_call (SmartCrop s) this = smartCrop s this"
| "apply_call (FitIn w h) this = fitIn w h this"
| "apply_call WithFlipHorizontally this = withFlipHorizontally this"
| "apply_call WithFlipVertically this = withFlipVertically this"
| "apply_call (HAlignCall a) this = hAlign a this"
| "apply_call (VAlignCall a) this = vAlign a this"
| "apply_call MetaDataOnly this = metaDataOnly this"
| "apply_call (FilterCall f) this = filter_method f this"
| "apply_call (FormatCall f) this = format f this"
| "apply_call (Crop l t r b) this = crop l t r b this"

text \<open>A chain of calls \<^verbatim>\<open>this.c1().c2()...\<close>, applied from left to right.\<close>

definition run_calls :: "call list \<Rightarrow> ThumborUrlBuilder \<Rightarrow> ThumborUrlBuilder" where
  "run_calls cs this = foldl (\<lambda>s c. apply_call c s) this cs"

section \<open>The rendering the specification describes\<close>

text \<open>
  The specification (section 4.2) numbers eight segments and gives each a condition and
  a format. \<open>spec_segment\<close> follows its words; \<open>segment_order\<close> is its fixed order.
\<close>

datatype segment =
    Seg_meta | Seg_crop | Seg_fit_in | Seg_size | Seg_hAlign | Seg_vAlign | Seg_smart
  | Seg_filters

definition segment_order :: "segment list" where
  "segment_order =
     [Seg_meta, Seg_crop, Seg_fit_in, Seg_size, Seg_hAlign, Seg_vAlign, Seg_smart, Seg_filters]"

fun spec_segment :: "ThumborUrlBuilder \<Rightarrow> segment \<Rightarrow> string option" where
  "spec_segment b Seg_meta = (if meta b then Some ''meta'' else None)"
| "spec_segment b Seg_crop =
     map_option
       (\<lambda>c. number_to_string (crop_left c) @ ''x'' @ number_to_string (crop_top c) @ '':'' @
            number_to_string (crop_right c) @ ''x'' @ number_to_string (crop_bottom c))
       (cropValues b)"
| "spec_segment b Seg_fit_in = (if fitInFlag b then Some ''fit-in'' else None)"
| "spec_segment b Seg_size =
     (if width b \<noteq> 0 \<or> height b \<noteq> 0 \<or> flipHorizontally b \<or> flipVertically b
      then Some ((if flipHorizontally b then ''-'' else []) @ number_to_string (width b) @
                 ''x'' @
                 (if flipVertically b then ''-'' else []) @ number_to_string (height b))
      else None)"
| "spec_segment b Seg_hAlign = map_option HAlign_token (hAlignValue b)"
| "spec_segment b Seg_vAlign = map_option VAlign_token (vAlignValue b)"
| "spec_segment b Seg_smart = (if smart b then Some ''smart'' else None)"
| "spec_segment b Seg_filters =
     (if filtersCalls b = [] then None
      else Some (''filters:'' @ join '':'' (filtersCalls b)))"

definition spec_segments :: "ThumborUrlBuilder \<Rightarrow> string list" where
  "spec_segments b = List.map_filter (spec_segment b) segment_order"

text \<open>
  The URL-safe Base64 alphabet of RFC 4648, section 5: the standard alphabet with
  \<^verbatim>\<open>-\<close> and \<^verbatim>\<open>_\<close> in the places of \<^verbatim>\<open>+\<close> and \<^verbatim>\<open>/\<close>.
\<close>

definition base64url_map :: string where
  "base64url_map = ''ABCDEFGHIJKLMNOPQRSTUVWXYZabcdefghijklmnopqrstuvwxyz0123456789-_''"

text \<open>
  The replacement the specification (section 4.3) asks for after the Base64 encoding:
  every \<^verbatim>\<open>+\<close> becomes \<^verbatim>\<open>-\<close> and every \<^verbatim>\<open>/\<close> becomes \<^verbatim>\<open>_\<close>.
\<close>

definition url_safe :: "char \<Rightarrow> char" where
  "url_safe c = (if c = CHR ''+'' then CHR ''-'' else if c = CHR ''/'' then CHR ''_'' else c)"

section \<open>Lemmas on the rendering\<close>

lemma urlParts_empty:
  "imagePath b = [] \<Longrightarrow> urlParts b = Inl (Error ''The image url can't be null or empty.'')"
  by (simp add: urlParts_def)

lemma urlParts_spec: "imagePath b \<noteq> [] \<Longrightarrow> urlParts b = Inr (spec_segments b)"
  by (simp add: urlParts_def spec_segments_def segment_order_def split: option.splits)

lemma getOperationPath_empty:
  "imagePath b = [] \<Longrightarrow>
   getOperationPath b = Inl (Error ''The image url can't be null or empty.'')"
  by (simp add: getOperationPath_def urlParts_empty)

lemma getOperationPath_nonempty:
  "imagePath b \<noteq> [] \<Longrightarrow>
   getOperationPath b =
     Inr (if spec_segments b = [] then [] else join ''/'' (spec_segments b) @ ''/'')"
  by (simp add: getOperationPath_def urlParts_spec)

lemma buildUrl_empty:
  "imagePath b = [] \<Longrightarrow> buildUrl b = Inl (Error ''The image url can't be null or empty.'')"
  by (simp add: buildUrl_def getOperationPath_empty)

lemma buildUrl_nonempty:
  "imagePath b \<noteq> [] \<Longrightarrow> getOperationPath b = Inr operation \<Longrightarrow>
   buildUrl b =
     Inr (serverUrl b @ ''/'' @ getSecureString b operation @ ''/'' @ operation @ imagePath b)"
  by (simp add: buildUrl_def)

section \<open>Lemmas on the setters\<close>

lemmas setter_defs =
  setImagePath_def resize_def smartCrop_def fitIn_def withFlipHorizontally_def
  withFlipVertically_def hAlign_def vAlign_def metaDataOnly_def filter_method_def
  format_def crop_def

lemma apply_call_securityKey: "securityKey (apply_call c b) = securityKey b"
  by (cases c) (simp_all add: setter_defs)

lemma apply_call_serverUrl: "serverUrl (apply_call c b) = serverUrl b"
  by (cases c) (simp_all add: setter_defs)

lemma apply_call_fitInFlag: "fitInFlag b \<Longrightarrow> fitInFlag (apply_call c b)"
  by (cases c) (simp_all add: setter_defs)

lemma run_calls_Nil: "run_calls [] b = b"
  by (simp add: run_calls_def)

lemma run_calls_Cons: "run_calls (c # cs) b = run_calls cs (apply_call c b)"
  by (simp add: run_calls_def)

lemma run_calls_securityKey: "securityKey (run_calls cs b) = securityKey b"
  by (induction cs arbitrary: b) (simp_all add: run_calls_Nil run_calls_Cons apply_call_securityKey)

lemma run_calls_serverUrl: "serverUrl (run_calls cs b) = serverUrl b"
  by (induction cs arbitrary: b) (simp_all add: run_calls_Nil run_calls_Cons apply_call_serverUrl)

lemma run_calls_fitInFlag: "fitInFlag b \<Longrightarrow> fitInFlag (run_calls cs b)"
  by (induction cs arbitrary: b) (simp_all add: run_calls_Nil run_calls_Cons apply_call_fitInFlag)

lemma run_calls_filters:
  "filtersCalls (run_calls (map FilterCall fs) b) = filtersCalls b @ fs"
  by (induction fs arbitrary: b) (simp_all add: run_calls_Nil run_calls_Cons filter_method_def)

section \<open>Lemmas on the signature token\<close>

text \<open>The padded message is a whole number of 64-byte blocks.\<close>

lemma length_sha1_pad: "length (sha1_pad m) mod 64 = 0"
proof -
  define r where "r = length m mod 64"
  define q where "q = length m div 64"
  have l: "length m = 64 * q + r" and r: "r < 64"
    by (simp_all add: r_def q_def)
  have len: "length (sha1_pad m) = length m + 9 + (119 - r) mod 64"
    by (simp add: sha1_pad_def Let_def r_def)
  show ?thesis
  proof (cases "r \<le> 55")
    case True
    then have "(119 - r) mod 64 = 55 - r"
      by (simp add: mod_if)
    with True have "length (sha1_pad m) = 64 * (q + 1)"
      by (simp add: len l)
    then show ?thesis by simp
  next
    case False
    with r have "(119 - r) mod 64 = 119 - r"
      by simp
    with False r have "length (sha1_pad m) = 64 * (q + 2)"
      by (simp add: len l)
    then show ?thesis by simp
  qed
qed

lemma length_word32_bytes: "length (word32_bytes w) = 4"
  by (simp add: word32_bytes_def)

lemma length_SHA1: "length (SHA1 m) = 20"
  by (simp add: SHA1_def Let_def length_word32_bytes split: prod.splits)

lemma length_HMAC_SHA1: "length (HMAC_SHA1 k m) = 20"
  by (simp add: HMAC_SHA1_def Let_def length_SHA1)

lemma length_Base64_stringify: "length (Base64_stringify bs) = 4 * ((length bs + 2) div 3)"
proof (induction bs rule: Base64_stringify.induct)
  case (4 b1 b2 b3 bs)
  have "(length (b1 # b2 # b3 # bs) + 2) div 3 = Suc ((length bs + 2) div 3)"
    by simp
  with 4 show ?case by (simp add: Let_def)
qed (simp_all add: Let_def)

lemma last_Base64_stringify:
  "length bs mod 3 \<noteq> 0 \<Longrightarrow> last (Base64_stringify bs) = CHR ''=''"
proof (induction bs rule: Base64_stringify.induct)
  case (4 b1 b2 b3 bs)
  then have "length bs mod 3 \<noteq> 0" by (simp add: mod_Suc split: if_splits)
  moreover from this have "Base64_stringify bs \<noteq> []"
    using length_Base64_stringify [of bs] by (cases bs) auto
  ultimately show ?case using 4 by (simp add: Let_def)
qed (simp_all add: Let_def)

lemma base64_char_in_map: "base64_char triplet j \<in> set base64_map"
proof -
  have "unat (drop_bit (6 * (3 - j)) triplet AND 0x3f) \<le> unat (0x3f :: word32)"
    by (rule word_and_le1 [THEN word_le_nat_alt [THEN iffD1]])
  then have "unat (drop_bit (6 * (3 - j)) triplet AND 0x3f) < length base64_map"
    by (simp add: base64_map_def)
  then show ?thesis
    unfolding base64_char_def by (rule nth_mem)
qed

lemma set_Base64_stringify: "set (Base64_stringify bs) \<subseteq> set base64_map \<union> {CHR ''=''}"
  by (induction bs rule: Base64_stringify.induct) (simp_all add: Let_def base64_char_in_map)

lemma replace_all_url_safe:
  "replace_all (CHR ''/'') (CHR ''_'') (replace_all (CHR ''+'') (CHR ''-'') s) = map url_safe s"
  by (simp add: replace_all_def url_safe_def)

lemma url_safe_eq_pad: "(url_safe c = CHR ''='') = (c = CHR ''='')"
  by (simp add: url_safe_def)

lemma url_safe_base64_map: "url_safe ` set base64_map \<subseteq> set base64url_map"
  by (simp add: base64_map_def base64url_map_def url_safe_def)

lemma token_props:
  assumes "securityKey b = Some k"
    and "b64 = Base64_stringify (HMAC_SHA1 (Utf8_parse k) (Utf8_parse (operation @ imagePath b)))"
  shows "getSecureString b operation = map url_safe b64"
    and "length b64 = 28"
    and "last b64 = CHR ''=''"
    and "b64 \<noteq> []"
proof -
  show "getSecureString b operation = map url_safe b64"
    by (simp add: getSecureString_def assms HmacSHA1_def replace_all_url_safe)
  show l: "length b64 = 28"
    by (simp add: assms(2) length_Base64_stringify length_HMAC_SHA1)
  show "last b64 = CHR ''=''"
    unfolding assms(2) by (rule last_Base64_stringify) (simp add: length_HMAC_SHA1)
  from l show "b64 \<noteq> []" by auto
qed

lemma map_filter_append:
  "List.map_filter f (xs @ ys) = List.map_filter f xs @ List.map_filter f ys"
  by (simp add: List.map_filter_def)

lemma spec_segments_crop:
  "cropValues b = Some c \<Longrightarrow>
   \<exists>pre post. spec_segments b =
      pre @ [number_to_string (crop_left c) @ ''x'' @ number_to_string (crop_top c) @ '':'' @
             number_to_string (crop_right c) @ ''x'' @ number_to_string (crop_bottom c)] @ post"
proof -
  assume c: "cropValues b = Some c"
  have "spec_segments b = List.map_filter (spec_segment b) ([Seg_meta] @ [Seg_crop] @
          [Seg_fit_in, Seg_size, Seg_hAlign, Seg_vAlign, Seg_smart, Seg_filters])"
    by (simp add: spec_segments_def segment_order_def)
  then have "spec_segments b =
      List.map_filter (spec_segment b) [Seg_meta] @
      List.map_filter (spec_segment b) [Seg_crop] @
      List.map_filter (spec_segment b)
        [Seg_fit_in, Seg_size, Seg_hAlign, Seg_vAlign, Seg_smart, Seg_filters]"
    by (simp only: map_filter_append)
  moreover have "List.map_filter (spec_segment b) [Seg_crop] =
      [number_to_string (crop_left c) @ ''x'' @ number_to_string (crop_top c) @ '':'' @
       number_to_string (crop_right c) @ ''x'' @ number_to_string (crop_bottom c)]"
    by (simp add: c)
  ultimately show ?thesis by metis
qed

lemma spec_segments_filters:
  "filtersCalls b \<noteq> [] \<Longrightarrow>
   \<exists>pre. spec_segments b = pre @ [''filters:'' @ join '':'' (filtersCalls b)]"
proof -
  assume f: "filtersCalls b \<noteq> []"
  have "spec_segments b = List.map_filter (spec_segment b)
         ([Seg_meta, Seg_crop, Seg_fit_in, Seg_size, Seg_hAlign, Seg_vAlign, Seg_smart] @
          [Seg_filters])"
    by (simp add: spec_segments_def segment_order_def)
  then have "spec_segments b =
      List.map_filter (spec_segment b)
        [Seg_meta, Seg_crop, Seg_fit_in, Seg_size, Seg_hAlign, Seg_vAlign, Seg_smart] @
      List.map_filter (spec_segment b) [Seg_filters]"
    by (simp only: map_filter_append)
  moreover have "List.map_filter (spec_segment b) [Seg_filters] =
      [''filters:'' @ join '':'' (filtersCalls b)]"
    by (simp add: f)
  ultimately show ?thesis by metis
qed

lemma number_to_string_1234:
  "number_to_string 1 = ''1''" "number_to_string 2 = ''2''"
  "number_to_string 3 = ''3''" "number_to_string 4 = ''4''"
  by (simp_all add: number_to_string_def nat_to_string.simps)

section \<open>Lemmas on the build as steps\<close>

text \<open>
  Each method, run as a step, returns the value of its functional form and hands the
  object back as it received it.
\<close>

lemma Let_state: "Let ((a::ThumborUrlBuilder), (p::string list)) f = f (a, p)"
  by simp

lemma Let_string: "Let (t::string) f = f t"
  by simp

lemma Let_parts: "Let (t::string list) f = f t"
  by simp

lemma parts_push_pair: "parts_push x (a, p) = (a, p @ [x])"
  by (simp add: parts_push_def)

lemma if_pair_state: "(if c then (a, p) else (a, q)) = (a, if c then p else q)"
  by simp

lemma if_pair_result: "(if c then (x, a) else (y, a)) = (if c then x else y, a)"
  by simp

lemma case_option_pair_state:
  "(case opt of None \<Rightarrow> (a, p) | Some c \<Rightarrow> (a, q c)) =
   (a, case opt of None \<Rightarrow> p | Some c \<Rightarrow> q c)"
  by (cases opt) simp_all

lemma urlParts_call_eq: "urlParts_call this = (urlParts this, this)"
  unfolding urlParts_call_def urlParts_def
  by (simp only: Let_state Let_string Let_parts parts_push_pair fst_conv snd_conv
      if_pair_state case_option_pair_state if_pair_result)

lemma getOperationPath_call_eq: "getOperationPath_call this = (getOperationPath this, this)"
  by (simp add: getOperationPath_call_def getOperationPath_def urlParts_call_eq
      split: sum.splits)

lemma getSecureString_call_eq:
  "getSecureString_call operation this = (getSecureString this operation, this)"
  by (simp add: getSecureString_call_def getSecureString_def split: option.splits)

lemma buildUrl_call_eq: "buildUrl_call this = (buildUrl this, this)"
  by (simp add: buildUrl_call_def buildUrl_def getOperationPath_call_eq
      getSecureString_call_eq split: sum.splits)

section \<open>The signer on known values\<close>

text \<open>
  Equations for evaluation: the same functions with every 32-bit or 8-bit result
  normalised to its numeral, so that the rounds of a block are evaluated once each.
\<close>

lemma sha1_rounds_code [code]:
  "sha1_rounds 0 t w s = s"
  "sha1_rounds (Suc n) t w (a, b, c, d, e) =
     sha1_rounds n (Suc t)
       (tl w @ [word_of_int (uint (word_rotl 1 (w ! 13 XOR w ! 8 XOR w ! 2 XOR w ! 0)))])
       (word_of_int (uint (word_rotl 5 a + sha1_f t b c d + e + sha1_K t + hd w)), a,
        word_of_int (uint (word_rotl 30 b)), c, d)"
  by simp_all

lemma be32_code [code]:
  "be32 a b c d =
     word_of_int (uint (push_bit 24 (ucast a) OR push_bit 16 (ucast b) OR
                        push_bit 8 (ucast c) OR ucast d :: word32))"
  by (simp add: be32_def)

lemma word32_bytes_code [code]:
  "word32_bytes w =
     [word_of_int (uint (ucast (drop_bit 24 w) :: byte)),
      word_of_int (uint (ucast (drop_bit 16 w) :: byte)),
      word_of_int (uint (ucast (drop_bit 8 w) :: byte)),
      word_of_int (uint (ucast w :: byte))]"
  by (simp add: word32_bytes_def)

lemma sha1_block_code [code]:
  "sha1_block H w =
     (case H of (h0, h1, h2, h3, h4) \<Rightarrow>
        (case sha1_rounds 80 0 w H of (a, b, c, d, e) \<Rightarrow>
           (word_of_int (uint (h0 + a)), word_of_int (uint (h1 + b)),
            word_of_int (uint (h2 + c)), word_of_int (uint (h3 + d)),
            word_of_int (uint (h4 + e)))))"
  by (simp add: sha1_block_def)

text \<open>The digest of \<^verbatim>\<open>abc\<close> in FIPS 180: \<^verbatim>\<open>a9993e36 4706816a ba3e2571 7850c26c 9cd0d89d\<close>.\<close>

lemma SHA1_abc:
  "SHA1 (Utf8_parse ''abc'') =
     [0xa9, 0x99, 0x3e, 0x36, 0x47, 0x06, 0x81, 0x6a, 0xba, 0x3e,
      0x25, 0x71, 0x78, 0x50, 0xc2, 0x6c, 0x9c, 0xd0, 0xd8, 0x9d]"
  by code_simp

text \<open>Test case 2 of RFC 2202 for HMAC-SHA-1.\<close>

lemma HmacSHA1_rfc2202_case_2:
  "HmacSHA1 ''what do ya want for nothing?'' ''Jefe'' =
     [0xef, 0xfc, 0xdf, 0x6a, 0xe5, 0xeb, 0x2f, 0xa2, 0xd2, 0x74,
      0x16, 0xd5, 0xf1, 0x84, 0xdf, 0x9c, 0x25, 0x9a, 0x7c, 0x79]"
  by code_simp

text \<open>Base64 of the examples of RFC 4648, section 10.\<close>

lemma Base64_stringify_rfc4648:
  "Base64_stringify (Utf8_parse ''f'') = ''Zg==''"
  "Base64_stringify (Utf8_parse ''fo'') = ''Zm8=''"
  "Base64_stringify (Utf8_parse ''foo'') = ''Zm9v''"
  "Base64_stringify (Utf8_parse ''foobar'') = ''Zm9vYmFy''"
  by code_simp+

text \<open>
  A signed URL: the key \<^verbatim>\<open>my-security-key\<close>, the image
  \<^verbatim>\<open>my.server.com/some/path/to/image.jpg\<close> and \<^verbatim>\<open>resize(300, 200)\<close>.
\<close>

lemma buildUrl_signed_example:
  "buildUrl
     (run_calls [SetImagePath ''my.server.com/some/path/to/image.jpg'', Resize 300 200]
        (new_ThumborUrlBuilder (Some ''my-security-key'') ''http://localhost:8888''))
   = Inr ''http://localhost:8888/8ammJH8D-7tXy6kU3lTvoXlhu4o=/300x200/my.server.com/some/path/to/image.jpg''"
  by code_simp

section \<open>The claims\<close>

text \<open>
  Claim C1. \<^verbatim>\<open>buildUrl\<close> raises an error exactly when the stored image path is empty:
  with a non-empty image path it returns a URL, with an empty one (the initial state, or
  after \<^verbatim>\<open>setImagePath("")\<close>) it raises the usage error, and it raises nothing else.
\<close>

theorem buildUrl_throws_iff_imagePath_empty:
  "(imagePath b \<noteq> [] \<longrightarrow> (\<exists>url. buildUrl b = Inr url)) \<and>
   (imagePath b = [] \<longrightarrow>
      buildUrl b = Inl (Error ''The image url can't be null or empty.'')) \<and>
   ((\<exists>e. buildUrl b = Inl e) \<longleftrightarrow> imagePath b = []) \<and>
   buildUrl (new_ThumborUrlBuilder key url) =
     Inl (Error ''The image url can't be null or empty.'') \<and>
   buildUrl (setImagePath [] b) = Inl (Error ''The image url can't be null or empty.'')"
proof -
  have ok: "\<exists>url. buildUrl b = Inr url" if "imagePath b \<noteq> []"
    using that buildUrl_nonempty [OF that getOperationPath_nonempty [OF that]] by simp
  have bad: "buildUrl c = Inl (Error ''The image url can't be null or empty.'')"
    if "imagePath c = []" for c
    using that by (rule buildUrl_empty)
  have "imagePath (new_ThumborUrlBuilder key url) = []"
    by (simp add: new_ThumborUrlBuilder_def)
  moreover have "imagePath (setImagePath [] b) = []"
    by (simp add: setImagePath_def)
  ultimately show ?thesis
    using ok bad by (cases "imagePath b = []") auto
qed

theorem buildUrl_throws_iff_imagePath_empty_witness:
  "(\<exists>u. buildUrl (setImagePath ''/image.jpg'' (new_ThumborUrlBuilder None ''http://example.com''))
         = Inr u) \<and>
   buildUrl (setImagePath ''/'' (new_ThumborUrlBuilder None ''http://example.com''))
     = Inl (Error ''The image url can't be null or empty.'')"
  using buildUrl_throws_iff_imagePath_empty
          [of "setImagePath ''/image.jpg'' (new_ThumborUrlBuilder None ''http://example.com'')"]
        buildUrl_throws_iff_imagePath_empty
          [of "setImagePath ''/'' (new_ThumborUrlBuilder None ''http://example.com'')"]
  by (simp add: setImagePath_def new_ThumborUrlBuilder_def)

text \<open>
  Claim C2. In every state reached from a new builder by any sequence of setter calls,
  the parts that \<^verbatim>\<open>urlParts\<close> returns are the segments of the enabled features in the
  fixed order meta, crop, fit-in, size, hAlign, vAlign, smart, filters; a segment whose
  condition is false is left out, and the order of the calls plays no role.
\<close>

theorem urlParts_segment_order:
  assumes "b = run_calls cs (new_ThumborUrlBuilder key url)"
    and "urlParts b = Inr parts"
  shows "parts = List.map_filter (spec_segment b) segment_order"
proof -
  from assms(2) have "imagePath b \<noteq> []"
    by (auto simp: urlParts_empty)
  then show ?thesis
    using assms(2) by (simp add: urlParts_spec spec_segments_def)
qed

theorem urlParts_segment_order_witness:
  "urlParts (run_calls [FilterCall ''quality(80)'', SmartCrop True, VAlignCall VAlign_top,
                        HAlignCall HAlign_left, WithFlipHorizontally, FitIn 100 0,
                        Crop 1 2 3 4, MetaDataOnly, SetImagePath ''a.png'']
               (new_ThumborUrlBuilder None ''http://example.com''))
     = Inr [''meta'', ''1x2:3x4'', ''fit-in'', ''-100x0'', ''left'', ''top'', ''smart'',
            ''filters:quality(80)'']"
proof -
  let ?cs = "[FilterCall ''quality(80)'', SmartCrop True, VAlignCall VAlign_top,
              HAlignCall HAlign_left, WithFlipHorizontally, FitIn 100 0,
              Crop 1 2 3 4, MetaDataOnly, SetImagePath ''a.png'']"
  let ?b = "run_calls ?cs (new_ThumborUrlBuilder None ''http://example.com'')"
  have b: "?b = \<lparr> imagePath = ''a.png'', width = 100, height = 0, smart = True,
       fitInFlag = True, flipHorizontally = True, flipVertically = False,
       hAlignValue = Some HAlign_left, vAlignValue = Some VAlign_top,
       cropValues = Some \<lparr> crop_left = 1, crop_top = 2, crop_right = 3, crop_bottom = 4 \<rparr>,
       meta = True, filtersCalls = [''quality(80)''],
       securityKey = None, serverUrl = ''http://example.com'' \<rparr>"
    by (simp add: run_calls_def setter_defs new_ThumborUrlBuilder_def)
  have "imagePath ?b \<noteq> []" by (simp add: b)
  then obtain parts where p: "urlParts ?b = Inr parts"
    by (auto simp: urlParts_spec)
  have "parts = List.map_filter (spec_segment ?b) segment_order"
    using urlParts_segment_order [OF refl p] .
  also have "\<dots> = [''meta'', ''1x2:3x4'', ''fit-in'', ''-100x0'', ''left'', ''top'', ''smart'',
            ''filters:quality(80)'']"
    unfolding b by (simp add: segment_order_def number_to_string_def nat_to_string.simps)
  finally show ?thesis using p by simp
qed

text \<open>
  Claim C3. For a builder constructed with no security key, the signature token is the
  literal string \<^verbatim>\<open>unsafe\<close>, and it stands in the built URL between the server URL and
  the operation path.
\<close>

theorem unsigned_token_is_unsafe:
  assumes "b = run_calls cs (new_ThumborUrlBuilder None url)"
  shows "getSecureString b operation = ''unsafe'' \<and>
         (\<forall>u. buildUrl b = Inr u \<longrightarrow>
            (\<exists>op. getOperationPath b = Inr op \<and>
                  u = url @ ''/'' @ ''unsafe'' @ ''/'' @ op @ imagePath b))"
proof -
  have key: "securityKey b = None"
    by (simp add: assms run_calls_securityKey new_ThumborUrlBuilder_def)
  have srv: "serverUrl b = url"
    by (simp add: assms run_calls_serverUrl new_ThumborUrlBuilder_def)
  have tok: "getSecureString b op = ''unsafe''" for op
    by (simp add: getSecureString_def key)
  show ?thesis
    using tok srv by (auto simp: buildUrl_def split: sum.splits)
qed

theorem unsigned_token_is_unsafe_witness:
  "buildUrl (run_calls [SetImagePath ''/image.jpg'', Resize 300 200]
               (new_ThumborUrlBuilder None ''http://example.com''))
     = Inr ''http://example.com/unsafe/300x200/image.jpg''"
proof -
  let ?b = "run_calls [SetImagePath ''/image.jpg'', Resize 300 200]
              (new_ThumborUrlBuilder None ''http://example.com'')"
  have op: "getOperationPath ?b = Inr ''300x200/''"
    by (simp add: run_calls_def setter_defs getOperationPath_def urlParts_def
        new_ThumborUrlBuilder_def number_to_string_def nat_to_string.simps)
  have path: "imagePath ?b = ''image.jpg''"
    by (simp add: run_calls_def setter_defs)
  have srv: "serverUrl ?b = ''http://example.com''"
    by (simp add: run_calls_serverUrl new_ThumborUrlBuilder_def)
  have "getSecureString ?b ''300x200/'' = ''unsafe''"
    using unsigned_token_is_unsafe [OF refl, of "[SetImagePath ''/image.jpg'', Resize 300 200]"
        "''http://example.com''" "''300x200/''"]
    by fast
  then show ?thesis
    unfolding buildUrl_def op path srv by simp
qed

text \<open>
  Claim C4. For a builder constructed with a security key, the signature token is the
  standard Base64 encoding of the HMAC-SHA1 digest of \<^verbatim>\<open>operationPath + imagePath\<close>
  keyed by the security key, with every \<^verbatim>\<open>+\<close> replaced by \<^verbatim>\<open>-\<close> and every \<^verbatim>\<open>/\<close>
  by \<^verbatim>\<open>_\<close>. The \<^verbatim>\<open>=\<close> padding of the encoding is preserved: the token has the
  padding characters at the same places, so it has 28 characters and ends in \<^verbatim>\<open>=\<close>.
\<close>

theorem signed_token_is_url_safe_base64_hmac_sha1:
  assumes "b = run_calls cs (new_ThumborUrlBuilder (Some k) url)"
    and "token = getSecureString b operation"
    and "b64 = Base64_stringify (HMAC_SHA1 (Utf8_parse k) (Utf8_parse (operation @ imagePath b)))"
  shows "token = map url_safe b64 \<and>
         map (\<lambda>c. c = CHR ''='') token = map (\<lambda>c. c = CHR ''='') b64 \<and>
         length token = 28 \<and> last b64 = CHR ''='' \<and> last token = CHR ''='' \<and>
         CHR ''+'' \<notin> set token \<and> CHR ''/'' \<notin> set token \<and>
         set token \<subseteq> set base64url_map \<union> {CHR ''=''}"
proof -
  have key: "securityKey b = Some k"
    by (simp add: assms(1) run_calls_securityKey new_ThumborUrlBuilder_def)
  note p = token_props [OF key assms(3)]
  have t: "token = map url_safe b64"
    by (simp add: assms(2) p(1))
  have pad: "map (\<lambda>c. c = CHR ''='') token = map (\<lambda>c. c = CHR ''='') b64"
    by (simp add: t url_safe_eq_pad)
  have len: "length token = 28 \<and> last b64 = CHR ''='' \<and> last token = CHR ''=''"
    using p(2,3,4) by (simp add: t last_map url_safe_eq_pad)
  have free: "CHR ''+'' \<notin> set token \<and> CHR ''/'' \<notin> set token"
    by (auto simp: t url_safe_def split: if_splits)
  have "set token = url_safe ` set b64"
    by (simp add: t)
  also have "\<dots> \<subseteq> url_safe ` (set base64_map \<union> {CHR ''=''})"
    unfolding assms(3) by (rule image_mono) (rule set_Base64_stringify)
  also have "\<dots> = url_safe ` set base64_map \<union> {CHR ''=''}"
    by (simp add: url_safe_eq_pad [of "CHR ''=''", simplified])
  also have "\<dots> \<subseteq> set base64url_map \<union> {CHR ''=''}"
    using url_safe_base64_map by (rule Un_mono) simp
  finally have "set token \<subseteq> set base64url_map \<union> {CHR ''=''}" .
  with t pad len free show ?thesis by blast
qed

theorem signed_token_is_url_safe_base64_hmac_sha1_witness:
  "length (getSecureString
            (run_calls [SetImagePath ''/image.jpg'', Resize 300 200]
               (new_ThumborUrlBuilder (Some ''my-security-key'') ''http://example.com''))
            ''300x200/'') = 28 \<and>
   last (getSecureString
            (run_calls [SetImagePath ''/image.jpg'', Resize 300 200]
               (new_ThumborUrlBuilder (Some ''my-security-key'') ''http://example.com''))
            ''300x200/'') = CHR ''=''"
  using signed_token_is_url_safe_base64_hmac_sha1 [OF refl refl refl,
      of "[SetImagePath ''/image.jpg'', Resize 300 200]" "''my-security-key''"
         "''http://example.com''" "''300x200/''"]
  by fast

text \<open>
  Claim C5. \<^verbatim>\<open>crop\<close> sets the crop window exactly when all four arguments are strictly
  positive; otherwise the call raises nothing and leaves the whole builder as it was.
  \<^verbatim>\<open>crop(0, 5, 10, 10)\<close> changes nothing, and \<^verbatim>\<open>crop(1, 2, 3, 4)\<close> yields the segment
  \<^verbatim>\<open>1x2:3x4\<close>.
\<close>

theorem crop_sets_window_iff_all_positive:
  "(0 < l \<and> 0 < t \<and> 0 < r \<and> 0 < bt \<longrightarrow>
      crop l t r bt b =
        b\<lparr> cropValues := Some \<lparr> crop_left = l, crop_top = t, crop_right = r, crop_bottom = bt \<rparr> \<rparr>) \<and>
   (\<not> (0 < l \<and> 0 < t \<and> 0 < r \<and> 0 < bt) \<longrightarrow> crop l t r bt b = b) \<and>
   crop 0 5 10 10 b = b \<and>
   (imagePath b \<noteq> [] \<longrightarrow>
      (\<exists>pre post. urlParts (crop 1 2 3 4 b) = Inr (pre @ [''1x2:3x4''] @ post)))"
proof -
  have "\<exists>pre post. urlParts (crop 1 2 3 4 b) = Inr (pre @ [''1x2:3x4''] @ post)"
    if "imagePath b \<noteq> []"
  proof -
    let ?c = "\<lparr> crop_left = 1, crop_top = 2, crop_right = 3, crop_bottom = 4 \<rparr>"
    have "imagePath (crop 1 2 3 4 b) \<noteq> []" and "cropValues (crop 1 2 3 4 b) = Some ?c"
      using that by (simp_all add: crop_def)
    then show ?thesis
      using spec_segments_crop [of "crop 1 2 3 4 b" ?c]
      by (simp add: urlParts_spec number_to_string_1234)
  qed
  then show ?thesis by (simp add: crop_def)
qed

theorem crop_sets_window_iff_all_positive_witness:
  "urlParts (crop 1 2 3 4 (setImagePath ''x.jpg'' (new_ThumborUrlBuilder None ''http://example.com'')))
     = Inr [''1x2:3x4''] \<and>
   cropValues (crop 0 5 10 10 (setImagePath ''x.jpg'' (new_ThumborUrlBuilder None ''http://example.com'')))
     = None"
proof -
  let ?b = "setImagePath ''x.jpg'' (new_ThumborUrlBuilder None ''http://example.com'')"
  note h = crop_sets_window_iff_all_positive [of 1 2 3 4 ?b]
  have "crop 1 2 3 4 ?b =
     ?b\<lparr> cropValues := Some \<lparr> crop_left = 1, crop_top = 2, crop_right = 3, crop_bottom = 4 \<rparr> \<rparr>"
    using h by simp
  then have "urlParts (crop 1 2 3 4 ?b) = Inr [''1x2:3x4'']"
    by (simp add: urlParts_def setImagePath_def new_ThumborUrlBuilder_def number_to_string_1234)
  moreover have "crop 0 5 10 10 ?b = ?b"
    using h by simp
  then have "cropValues (crop 0 5 10 10 ?b) = None"
    by (simp add: setImagePath_def new_ThumborUrlBuilder_def)
  ultimately show ?thesis by simp
qed

text \<open>
  Claim C6, as stated: after \<^verbatim>\<open>setImagePath\<close> the stored image path never begins with
  \<^verbatim>\<open>/\<close>, also for an input that begins with two or more \<^verbatim>\<open>/\<close>. The source removes
  one character only, so the input \<^verbatim>\<open>//image.jpg\<close> is stored as \<^verbatim>\<open>/image.jpg\<close>.
\<close>

theorem setImagePath_double_slash_counterexample:
  "imagePath (setImagePath ''//image.jpg'' (new_ThumborUrlBuilder None ''http://example.com''))
     = ''/image.jpg''"
  by (simp add: setImagePath_def new_ThumborUrlBuilder_def)

text \<open>
  Claim C6, amended. \<^verbatim>\<open>setImagePath\<close> removes exactly one leading \<^verbatim>\<open>/\<close> when there is
  one and stores any other input as it is; the stored image path begins with \<^verbatim>\<open>/\<close>
  exactly when the input begins with \<^verbatim>\<open>//\<close>.
\<close>

theorem setImagePath_strips_one_slash:
  "(take 1 p = ''/'' \<longrightarrow> ''/'' @ imagePath (setImagePath p b) = p) \<and>
   (take 1 p \<noteq> ''/'' \<longrightarrow> imagePath (setImagePath p b) = p) \<and>
   (take 1 (imagePath (setImagePath p b)) = ''/'' \<longleftrightarrow> take 2 p = ''//'')"
proof (cases p)
  case Nil
  then show ?thesis by (simp add: setImagePath_def)
next
  case (Cons c q)
  then show ?thesis by (cases q) (auto simp: setImagePath_def)
qed

theorem setImagePath_strips_one_slash_witness:
  "imagePath (setImagePath ''/image.jpg'' (new_ThumborUrlBuilder None ''http://example.com''))
     = ''image.jpg'' \<and>
   imagePath (setImagePath ''image.jpg'' (new_ThumborUrlBuilder None ''http://example.com''))
     = ''image.jpg'' \<and>
   take 1 (imagePath (setImagePath ''/image.jpg'' (new_ThumborUrlBuilder None ''http://example.com'')))
     \<noteq> ''/''"
  using setImagePath_strips_one_slash
          [of "''/image.jpg''" "new_ThumborUrlBuilder None ''http://example.com''"]
        setImagePath_strips_one_slash
          [of "''image.jpg''" "new_ThumborUrlBuilder None ''http://example.com''"]
  by simp

text \<open>
  Claim C10. A builder constructed with the empty string as security key is signed: only
  an absent key selects \<^verbatim>\<open>unsafe\<close>, and the token of the empty key is the encoded
  HMAC-SHA1 digest under the empty key, which differs from \<^verbatim>\<open>unsafe\<close>.
\<close>

theorem empty_key_is_signed:
  assumes "b = run_calls cs (new_ThumborUrlBuilder (Some []) url)"
  shows "getSecureString b operation \<noteq> ''unsafe'' \<and>
         getSecureString b operation =
           map url_safe (Base64_stringify (HMAC_SHA1 [] (Utf8_parse (operation @ imagePath b)))) \<and>
         length (getSecureString b operation) = 28"
proof -
  have key: "securityKey b = Some []"
    by (simp add: assms run_calls_securityKey new_ThumborUrlBuilder_def)
  note p = token_props [OF key refl, of operation]
  have "length (getSecureString b operation) = 28"
    using p(1,2) by simp
  moreover from this have "getSecureString b operation \<noteq> ''unsafe''"
    by auto
  ultimately show ?thesis
    using p(1) by (simp add: Utf8_parse_def)
qed

theorem empty_key_is_signed_witness:
  "getSecureString
     (run_calls [SetImagePath ''x.jpg''] (new_ThumborUrlBuilder (Some []) ''http://example.com''))
     [] \<noteq> ''unsafe''"
  using empty_key_is_signed [OF refl, of "[SetImagePath ''x.jpg'']" "''http://example.com''" "[]"]
  by fast

text \<open>
  Claim C7. \<^verbatim>\<open>resize\<close> and \<^verbatim>\<open>fitIn\<close> each overwrite width and height; \<^verbatim>\<open>fitIn\<close> also
  sets the fit-in flag, \<^verbatim>\<open>resize\<close> changes no field but width and height, and once the
  flag is set it stays set under every later sequence of setter calls.
\<close>

theorem resize_fitIn_overwrite_size_and_fitIn_flag_sticks:
  "resize w h b = b\<lparr> width := w, height := h \<rparr> \<and>
   fitIn w h b = b\<lparr> width := w, height := h, fitInFlag := True \<rparr> \<and>
   width (resize w h (fitIn w' h' b)) = w \<and> height (resize w h (fitIn w' h' b)) = h \<and>
   width (fitIn w h (resize w' h' b)) = w \<and> height (fitIn w h (resize w' h' b)) = h \<and>
   fitInFlag (fitIn w h b) \<and>
   fitInFlag (resize w h b) = fitInFlag b \<and>
   resize w h (fitIn w' h' b) = (fitIn w h b) \<and>
   fitInFlag (run_calls cs (fitIn w h b))"
  by (simp add: resize_def fitIn_def run_calls_fitInFlag)

theorem resize_fitIn_overwrite_size_and_fitIn_flag_sticks_witness:
  "fitInFlag (run_calls [Resize 300 200, SmartCrop True, Resize 0 0]
                (fitIn 100 50 (new_ThumborUrlBuilder None ''http://example.com''))) \<and>
   width (resize 300 200 (fitIn 100 50 (new_ThumborUrlBuilder None ''http://example.com''))) = 300"
  using resize_fitIn_overwrite_size_and_fitIn_flag_sticks
    [of 100 50 "new_ThumborUrlBuilder None ''http://example.com''"
        100 50 "[Resize 300 200, SmartCrop True, Resize 0 0]"]
    resize_fitIn_overwrite_size_and_fitIn_flag_sticks
    [of 300 200 "new_ThumborUrlBuilder None ''http://example.com''" 100 50 "[]"]
  by fast

text \<open>
  Claim C8. A call of \<^verbatim>\<open>buildUrl\<close> leaves the builder as it was: the object after the
  steps of \<^verbatim>\<open>buildUrl\<close>, \<^verbatim>\<open>getOperationPath\<close>, \<^verbatim>\<open>urlParts\<close> and
  \<^verbatim>\<open>getSecureString\<close> is the object before them. A second call with no setter call in
  between returns the same URL or raises the same error, and a call after further
  setter calls returns what a first call would return there.
\<close>

theorem buildUrl_pure_and_idempotent:
  "snd (buildUrl_call b) = b \<and>
   fst (buildUrl_call (snd (buildUrl_call b))) = fst (buildUrl_call b) \<and>
   buildUrl_call (snd (buildUrl_call b)) = buildUrl_call b \<and>
   fst (buildUrl_call b) = buildUrl b \<and>
   fst (buildUrl_call (run_calls cs (snd (buildUrl_call b)))) = buildUrl (run_calls cs b)"
  by (simp add: buildUrl_call_eq)

theorem buildUrl_pure_and_idempotent_witness:
  "snd (buildUrl_call
      (run_calls [SetImagePath ''/image.jpg'', Resize 300 200]
         (new_ThumborUrlBuilder None ''http://example.com'')))
   = run_calls [SetImagePath ''/image.jpg'', Resize 300 200]
       (new_ThumborUrlBuilder None ''http://example.com'') \<and>
   fst (buildUrl_call (snd (buildUrl_call
      (run_calls [SetImagePath ''/image.jpg'', Resize 300 200]
         (new_ThumborUrlBuilder None ''http://example.com'')))))
   = fst (buildUrl_call
      (run_calls [SetImagePath ''/image.jpg'', Resize 300 200]
         (new_ThumborUrlBuilder None ''http://example.com'')))"
  using buildUrl_pure_and_idempotent
    [of "run_calls [SetImagePath ''/image.jpg'', Resize 300 200]
         (new_ThumborUrlBuilder None ''http://example.com'')" "[]"]
  by fast

text \<open>
  Claim C9. \<^verbatim>\<open>filter\<close> appends its argument, so the calls are kept in call order with
  their duplicates; they render as one last segment \<^verbatim>\<open>filters:\<close> followed by the
  calls joined by \<^verbatim>\<open>:\<close>. \<^verbatim>\<open>format(fmt)\<close> is \<^verbatim>\<open>filter("format(" + fmt + ")")\<close>, so
  \<^verbatim>\<open>filter("quality(80)")\<close> and then \<^verbatim>\<open>format("webp")\<close> give the segment
  \<^verbatim>\<open>filters:quality(80):format(webp)\<close>.
\<close>

theorem filters_accumulate_in_call_order:
  "filtersCalls (filter_method f b) = filtersCalls b @ [f] \<and>
   filtersCalls (run_calls (map FilterCall fs) b) = filtersCalls b @ fs \<and>
   format fmt b = filter_method (''format('' @ fmt @ '')'') b \<and>
   (imagePath b \<noteq> [] \<and> filtersCalls b \<noteq> [] \<longrightarrow>
      (\<exists>pre. urlParts b = Inr (pre @ [''filters:'' @ join '':'' (filtersCalls b)]))) \<and>
   (imagePath b \<noteq> [] \<and> filtersCalls b = [] \<longrightarrow>
      (\<exists>pre. urlParts (format ''webp'' (filter_method ''quality(80)'' b)) =
               Inr (pre @ [''filters:quality(80):format(webp)''])))"
proof -
  have seg: "\<exists>pre. urlParts c = Inr (pre @ [''filters:'' @ join '':'' (filtersCalls c)])"
    if "imagePath c \<noteq> []" and "filtersCalls c \<noteq> []" for c
    using that spec_segments_filters [of c] by (simp add: urlParts_spec)
  have ex: "\<exists>pre. urlParts (format ''webp'' (filter_method ''quality(80)'' b)) =
               Inr (pre @ [''filters:quality(80):format(webp)''])"
    if "imagePath b \<noteq> []" and "filtersCalls b = []"
  proof -
    let ?c = "format ''webp'' (filter_method ''quality(80)'' b)"
    have "imagePath ?c \<noteq> []" and "filtersCalls ?c = [''quality(80)'', ''format(webp)'']"
      using that by (simp_all add: format_def filter_method_def)
    then show ?thesis
      using seg [of ?c] by simp
  qed
  show ?thesis
    using seg [of b] ex
    by (simp add: filter_method_def format_def run_calls_filters)
qed

theorem filters_accumulate_in_call_order_witness:
  "urlParts (format ''webp'' (filter_method ''quality(80)''
       (setImagePath ''x.jpg'' (new_ThumborUrlBuilder None ''http://example.com''))))
     = Inr [''filters:quality(80):format(webp)''] \<and>
   filtersCalls (run_calls (map FilterCall [''blur(1)'', ''blur(1)''])
       (setImagePath ''x.jpg'' (new_ThumborUrlBuilder None ''http://example.com'')))
     = [''blur(1)'', ''blur(1)'']"
proof -
  let ?b = "setImagePath ''x.jpg'' (new_ThumborUrlBuilder None ''http://example.com'')"
  note h = filters_accumulate_in_call_order [of "''quality(80)''" ?b "[''blur(1)'', ''blur(1)'']" "''webp''"]
  have b: "imagePath ?b \<noteq> [] \<and> filtersCalls ?b = []"
    by (simp add: setImagePath_def new_ThumborUrlBuilder_def)
  have "urlParts (format ''webp'' (filter_method ''quality(80)'' ?b)) =
          Inr [''filters:quality(80):format(webp)'']"
    by (simp add: urlParts_def format_def filter_method_def setImagePath_def
        new_ThumborUrlBuilder_def)
  moreover have "filtersCalls (run_calls (map FilterCall [''blur(1)'', ''blur(1)'']) ?b)
      = [''blur(1)'', ''blur(1)'']"
    using h b by simp
  ultimately show ?thesis by simp
qed

end
